theory Spec2Isabelle
  imports Main
begin

section \<open>Helix keymap glue: data model\<close>

text \<open>
  The repository holds two versions of the Helix keymap module:
  \<^item> \<^verbatim>\<open>frontend/src/core/codemirror/keymaps/helix.ts\<close>, whose definitions keep the
    source's names here;
  \<^item> the module at the head of \<^verbatim>\<open>unnamed/part_000\<close>, whose definitions carry the
    suffix \<open>_part000\<close>.
  Both are embedded, function by function.

  JavaScript numbers that hold mode tags and document offsets are modelled as \<open>int\<close>.
\<close>

text \<open>\<^verbatim>\<open>type HelixModeState = { type: number; minor: number }\<close>\<close>

record HelixModeState =
  type :: int
  minor :: int

text \<open>
  \<^verbatim>\<open>const HelixMode = { Normal: 0, Insert: 1, Select: 4 }\<close> and
  \<^verbatim>\<open>const HelixMinor = { Normal: 2, Goto: 3, Match: 5, Space: 6 }\<close> (part_000; helix.ts
  writes the same numbers as literals: \<^verbatim>\<open>mode.type: 0=Normal, 1=Insert, 4=Select\<close>).
\<close>

abbreviation (input) HelixMode_Normal :: int where "HelixMode_Normal \<equiv> 0"
abbreviation (input) HelixMode_Insert :: int where "HelixMode_Insert \<equiv> 1"
abbreviation (input) HelixMode_Select :: int where "HelixMode_Select \<equiv> 4"
abbreviation (input) HelixMinor_Normal :: int where "HelixMinor_Normal \<equiv> 2"
abbreviation (input) HelixMinor_Goto :: int where "HelixMinor_Goto \<equiv> 3"
abbreviation (input) HelixMinor_Match :: int where "HelixMinor_Match \<equiv> 5"
abbreviation (input) HelixMinor_Space :: int where "HelixMinor_Space \<equiv> 6"

text \<open>
  What the module reads from an \<^verbatim>\<open>EditorView\<close>:
  \<^item> \<open>modeField\<close>: \<^verbatim>\<open>view.state.field(helixModeField, false)\<close>, \<open>None\<close> when the
    field is not part of the state (\<^verbatim>\<open>undefined\<close>);
  \<^item> \<open>selFrom\<close>, \<open>selTo\<close>: \<^verbatim>\<open>view.state.selection.main.from\<close> and \<^verbatim>\<open>.to\<close>;
  \<^item> \<open>docLength\<close>: \<^verbatim>\<open>view.state.doc.length\<close>;
  \<^item> \<open>cellId\<close>: \<^verbatim>\<open>view.state.facet(cellIdState)\<close>;
  \<^item> \<open>dispatchThrows\<close>: the exception a call of \<^verbatim>\<open>view.dispatch\<close> raises on this
    view, \<open>None\<close> when the call returns (\<^verbatim>\<open>broadcastModeChange\<close> wraps the call in
    \<^verbatim>\<open>try/catch\<close>, so a throwing view is an input the module expects).
\<close>

record EditorView =
  modeField :: "HelixModeState option"
  selFrom :: int
  selTo :: int
  docLength :: int
  cellId :: string
  dispatchThrows :: "string option"

text \<open>
  A state effect of a transaction: the mode effect (\<^verbatim>\<open>effect.is(modeEffectType)\<close>) with
  its value, or any other effect.
\<close>

datatype effect = ModeEffect HelixModeState | OtherEffect

text \<open>
  \<^verbatim>\<open>helixModeField.update(mode, tr)\<close>: the value of the first mode effect of the
  transaction, the old mode when there is none. part_000 rebuilds the value as
  \<^verbatim>\<open>{ type, minor }\<close> with \<^verbatim>\<open>minor\<close> defaulting to \<^verbatim>\<open>HelixMinor.Normal\<close>; the effect's
  declared value type has a numeric \<^verbatim>\<open>minor\<close>, so the rebuilt record has the same
  two fields.
\<close>

fun helixModeField_update :: "HelixModeState \<Rightarrow> effect list \<Rightarrow> HelixModeState" where
  "helixModeField_update mode [] = mode"
| "helixModeField_update mode (ModeEffect v # es) = v"
| "helixModeField_update mode (OtherEffect # es) = helixModeField_update mode es"

fun helixModeField_update_part000 :: "HelixModeState \<Rightarrow> effect list \<Rightarrow> HelixModeState" where
  "helixModeField_update_part000 mode [] = mode"
| "helixModeField_update_part000 mode (ModeEffect v # es) = \<lparr>type = type v, minor = minor v\<rparr>"
| "helixModeField_update_part000 mode (OtherEffect # es) = helixModeField_update_part000 mode es"

text \<open>\<^verbatim>\<open>helixModeField.create\<close>: \<^verbatim>\<open>{ type: 0, minor: 2 }\<close>.\<close>

definition helixModeField_create :: HelixModeState where
  "helixModeField_create = \<lparr>type = HelixMode_Normal, minor = HelixMinor_Normal\<rparr>"

section \<open>Mode predicates\<close>

text \<open>
  helix.ts:
  \<^verbatim>\<open>return (view.state.field(helixModeField, false)?.type ?? 0) === 0;\<close>
\<close>

definition isInHelixNormalMode :: "EditorView \<Rightarrow> bool" where
  "isInHelixNormalMode view =
     ((case modeField view of None \<Rightarrow> 0 | Some m \<Rightarrow> type m) = 0)"

text \<open>
  part_000:
  \<^verbatim>\<open>if (!m) return true;
  return m.type === HelixMode.Normal && m.minor === HelixMinor.Normal;\<close>
\<close>

definition isInHelixNormalMode_part000 :: "EditorView \<Rightarrow> bool" where
  "isInHelixNormalMode_part000 view =
     (case modeField view of
        None \<Rightarrow> True
      | Some m \<Rightarrow> type m = HelixMode_Normal \<and> minor m = HelixMinor_Normal)"

text \<open>
  helix.ts:
  \<^verbatim>\<open>return (view.state.field(helixModeField, false)?.type ?? 0) === 1;\<close>
\<close>

definition isInHelixInsertMode :: "EditorView \<Rightarrow> bool" where
  "isInHelixInsertMode view =
     ((case modeField view of None \<Rightarrow> 0 | Some m \<Rightarrow> type m) = 1)"

text \<open>
  part_000:
  \<^verbatim>\<open>if (!m) return false;
  return m.type === HelixMode.Insert;\<close>
\<close>

definition isInHelixInsertMode_part000 :: "EditorView \<Rightarrow> bool" where
  "isInHelixInsertMode_part000 view =
     (case modeField view of
        None \<Rightarrow> False
      | Some m \<Rightarrow> type m = HelixMode_Insert)"

section \<open>Boundary predicates\<close>

text \<open>
  helix.ts: \<^verbatim>\<open>return main.from === 0 && isInHelixNormalMode(view);\<close>
\<close>

definition isAtStartOfEditorHelix :: "EditorView \<Rightarrow> bool" where
  "isAtStartOfEditorHelix view = (selFrom view = 0 \<and> isInHelixNormalMode view)"

text \<open>
  helix.ts: \<^verbatim>\<open>return main.to >= docLength && isInHelixNormalMode(view);\<close>
\<close>

definition isAtEndOfEditorHelix :: "EditorView \<Rightarrow> bool" where
  "isAtEndOfEditorHelix view = (docLength view \<le> selTo view \<and> isInHelixNormalMode view)"

text \<open>
  part_000:
  \<^verbatim>\<open>if (docLength === 0) return true;
  return main.from === docLength - 1 && main.to === docLength;\<close>
\<close>

definition isAtEndOfEditorHelix_part000 :: "EditorView \<Rightarrow> bool" where
  "isAtEndOfEditorHelix_part000 view =
     (if docLength view = 0 then True
      else selFrom view = docLength view - 1 \<and> selTo view = docLength view)"

text \<open>
  part_000:
  \<^verbatim>\<open>if (!isInHelixNormalMode(view)) return false;
  return view.state.selection.main.from === 0;\<close>
\<close>

definition isAtStartOfEditorHelix_part000 :: "EditorView \<Rightarrow> bool" where
  "isAtStartOfEditorHelix_part000 view =
     (if \<not> isInHelixNormalMode_part000 view then False else selFrom view = 0)"

section \<open>Key handlers\<close>

text \<open>
  What a handler does to the outside, in the order of the calls:
  \<^item> \<open>MoveToNextCell cellId before noCreate\<close>:
    \<^verbatim>\<open>actions.moveToNextCell({ cellId, before, noCreate })\<close>;
  \<^item> \<open>GoToDefinitionAtCursorPosition\<close>: \<^verbatim>\<open>goToDefinitionAtCursorPosition(view)\<close>;
  \<^item> \<open>Dispatch m\<close>: \<^verbatim>\<open>view.dispatch({ effects: modeEffectType.of(m) })\<close>.
\<close>

datatype action =
    MoveToNextCell string bool bool
  | GoToDefinitionAtCursorPosition
  | Dispatch HelixModeState

text \<open>
  The \<^verbatim>\<open>run\<close> functions of the \<^verbatim>\<open>j\<close> and \<^verbatim>\<open>k\<close> bindings return whether the key was
  handled; the model pairs that with the calls made.
\<close>

definition j_run :: "EditorView \<Rightarrow> bool \<times> action list" where
  "j_run view =
     (if \<not> isAtEndOfEditorHelix view then (False, [])
      else (True, [MoveToNextCell (cellId view) False True]))"

definition k_run :: "EditorView \<Rightarrow> bool \<times> action list" where
  "k_run view =
     (if \<not> isAtStartOfEditorHelix view then (False, [])
      else (True, [MoveToNextCell (cellId view) True True]))"

definition j_run_part000 :: "EditorView \<Rightarrow> bool \<times> action list" where
  "j_run_part000 view =
     (if isAtEndOfEditorHelix_part000 view \<and> isInHelixNormalMode_part000 view
      then (True, [MoveToNextCell (cellId view) False True])
      else (False, []))"

definition k_run_part000 :: "EditorView \<Rightarrow> bool \<times> action list" where
  "k_run_part000 view =
     (if isAtStartOfEditorHelix_part000 view
      then (True, [MoveToNextCell (cellId view) True True])
      else (False, []))"

section \<open>Dispatching a mode effect\<close>

text \<open>
  \<^verbatim>\<open>view.dispatch({ effects })\<close> on one view: the call raises on a view that throws;
  otherwise the new state holds \<^verbatim>\<open>helixModeField.update\<close> of the old value, when the
  field is part of the state.
\<close>

definition dispatch :: "EditorView \<Rightarrow> effect list \<Rightarrow> string + EditorView" where
  "dispatch view effects =
     (case dispatchThrows view of
        Some e \<Rightarrow> Inl e
      | None \<Rightarrow>
          Inr (view\<lparr>modeField :=
                 map_option (\<lambda>mode. helixModeField_update mode effects) (modeField view)\<rparr>))"

definition dispatch_part000 :: "EditorView \<Rightarrow> effect list \<Rightarrow> string + EditorView" where
  "dispatch_part000 view effects =
     (case dispatchThrows view of
        Some e \<Rightarrow> Inl e
      | None \<Rightarrow>
          Inr (view\<lparr>modeField :=
                 map_option (\<lambda>mode. helixModeField_update_part000 mode effects) (modeField view)\<rparr>))"

section \<open>Ctrl-[ binding (helix.ts)\<close>

text \<open>
  \<^verbatim>\<open>keymap.of([{ linux: "Ctrl-[", win: "Ctrl-[", run(view) {...} }])\<close>.
  A binding names its key per platform; CodeMirror registers a binding under
  \<^verbatim>\<open>b[platform] || b.key\<close> and skips it when that is undefined, where the platform
  is one of \<^verbatim>\<open>"mac"\<close>, \<^verbatim>\<open>"win"\<close>, \<^verbatim>\<open>"linux"\<close>, \<^verbatim>\<open>"key"\<close> (any other system).
\<close>

datatype platform = Mac | Win | Linux | OtherPlatform

record KeyBinding =
  key :: "string option"
  mac :: "string option"
  win :: "string option"
  linux :: "string option"

definition ctrlBracketBinding :: KeyBinding where
  "ctrlBracketBinding =
     \<lparr>key = None, mac = None, win = Some ''Ctrl-['', linux = Some ''Ctrl-[''\<rparr>"

fun registeredName :: "platform \<Rightarrow> KeyBinding \<Rightarrow> string option" where
  "registeredName Mac b = (case mac b of Some n \<Rightarrow> Some n | None \<Rightarrow> key b)"
| "registeredName Win b = (case win b of Some n \<Rightarrow> Some n | None \<Rightarrow> key b)"
| "registeredName Linux b = (case linux b of Some n \<Rightarrow> Some n | None \<Rightarrow> key b)"
| "registeredName OtherPlatform b = key b"

text \<open>
  \<^verbatim>\<open>if (!isInHelixInsertMode(view)) return false;
  view.dispatch({ effects: modeEffectType.of({ type: 0, minor: 2 }) });
  return true;\<close>
  The result is the calls made and either the exception of \<^verbatim>\<open>dispatch\<close> or the
  returned flag with the view after the call.
\<close>

definition ctrlBracket_run :: "EditorView \<Rightarrow> action list \<times> (string + bool \<times> EditorView)" where
  "ctrlBracket_run view =
     (if \<not> isInHelixInsertMode view then ([], Inr (False, view))
      else
        (case dispatch view [ModeEffect \<lparr>type = 0, minor = 2\<rparr>] of
           Inl e \<Rightarrow> ([Dispatch \<lparr>type = 0, minor = 2\<rparr>], Inl e)
         | Inr view' \<Rightarrow> ([Dispatch \<lparr>type = 0, minor = 2\<rparr>], Inr (True, view'))))"

section \<open>The gd keymap\<close>

text \<open>
  \<^verbatim>\<open>goToDefinitionKeymap()\<close> allocates one variable \<^verbatim>\<open>awaitingGotoKey\<close> per call and
  returns three handlers that share it. Each handler is modelled as a function of the
  view and of the variable's value; it returns the variable's new value first.
\<close>

text \<open>
  Handler of \<^verbatim>\<open>g\<close>, the same text in both versions (each calls its own
  \<^verbatim>\<open>isInHelixNormalMode\<close>):
  \<^verbatim>\<open>if (isInHelixNormalMode(view)) awaitingGotoKey = true;
  return false;\<close>
\<close>

definition g_run :: "EditorView \<Rightarrow> bool \<Rightarrow> bool \<times> bool" where
  "g_run view awaitingGotoKey =
     ((if isInHelixNormalMode view then True else awaitingGotoKey), False)"

definition g_run_part000 :: "EditorView \<Rightarrow> bool \<Rightarrow> bool \<times> bool" where
  "g_run_part000 view awaitingGotoKey =
     ((if isInHelixNormalMode_part000 view then True else awaitingGotoKey), False)"

text \<open>
  Handler of \<^verbatim>\<open>d\<close> in helix.ts:
  \<^verbatim>\<open>if (!awaitingGotoKey) return false;
  awaitingGotoKey = false;
  if ((view.state.field(helixModeField, false)?.type ?? 0) !== 0) return false;
  goToDefinitionAtCursorPosition(view);
  view.dispatch({ effects: modeEffectType.of({ type: 0, minor: 2 }) });
  return true;\<close>
  The result is the new value of the variable, the calls made, and either the
  exception of \<^verbatim>\<open>dispatch\<close> or the returned flag with the view after the call.
\<close>

definition d_run ::
  "EditorView \<Rightarrow> bool \<Rightarrow> bool \<times> action list \<times> (string + bool \<times> EditorView)" where
  "d_run view awaitingGotoKey =
     (if \<not> awaitingGotoKey then (awaitingGotoKey, [], Inr (False, view))
      else if (case modeField view of None \<Rightarrow> 0 | Some m \<Rightarrow> type m) \<noteq> 0
      then (False, [], Inr (False, view))
      else
        (case dispatch view [ModeEffect \<lparr>type = 0, minor = 2\<rparr>] of
           Inl e \<Rightarrow>
             (False, [GoToDefinitionAtCursorPosition, Dispatch \<lparr>type = 0, minor = 2\<rparr>], Inl e)
         | Inr view' \<Rightarrow>
             (False, [GoToDefinitionAtCursorPosition, Dispatch \<lparr>type = 0, minor = 2\<rparr>],
              Inr (True, view'))))"

text \<open>
  Handler of \<^verbatim>\<open>d\<close> in part_000:
  \<^verbatim>\<open>const mode = view.state.field(helixModeField, false);
  const inNormalType = !mode || mode.type === HelixMode.Normal;
  if (awaitingGotoKey && inNormalType) {
    awaitingGotoKey = false;
    goToDefinitionAtCursorPosition(view);
    view.dispatch({ effects: modeEffectType.of({ type: HelixMode.Normal, minor: HelixMinor.Normal }) });
    return true;
  }
  awaitingGotoKey = false;
  return false;\<close>
\<close>

definition d_run_part000 ::
  "EditorView \<Rightarrow> bool \<Rightarrow> bool \<times> action list \<times> (string + bool \<times> EditorView)" where
  "d_run_part000 view awaitingGotoKey =
     (let inNormalType =
            (case modeField view of None \<Rightarrow> True | Some mode \<Rightarrow> type mode = HelixMode_Normal)
      in if awaitingGotoKey \<and> inNormalType then
           (case dispatch_part000 view
                   [ModeEffect \<lparr>type = HelixMode_Normal, minor = HelixMinor_Normal\<rparr>] of
              Inl e \<Rightarrow>
                (False,
                 [GoToDefinitionAtCursorPosition,
                  Dispatch \<lparr>type = HelixMode_Normal, minor = HelixMinor_Normal\<rparr>],
                 Inl e)
            | Inr view' \<Rightarrow>
                (False,
                 [GoToDefinitionAtCursorPosition,
                  Dispatch \<lparr>type = HelixMode_Normal, minor = HelixMinor_Normal\<rparr>],
                 Inr (True, view')))
         else (False, [], Inr (False, view)))"

text \<open>
  The \<^verbatim>\<open>any\<close> handler, the same in both versions:
  \<^verbatim>\<open>if (event.key !== "g" && event.key !== "d") awaitingGotoKey = false;
  return false;\<close>
\<close>

definition any_run :: "string \<Rightarrow> bool \<Rightarrow> bool \<times> bool" where
  "any_run eventKey awaitingGotoKey =
     ((if eventKey \<noteq> ''g'' \<and> eventKey \<noteq> ''d'' then False else awaitingGotoKey), False)"

text \<open>
  One key press (no modifier, \<^verbatim>\<open>event.key\<close> the name of the key) run through
  \<^verbatim>\<open>keymap.of([g, d, any])\<close>: CodeMirror calls the handlers bound to the key in the
  order of the list, then the \<^verbatim>\<open>any\<close> handler, and stops at the first one that
  returns true or throws. The parameters are the two key handlers of a version.
  This is the keymap on its own; \<open>bundle_keydown\<close> below puts the bindings registered
  before it in front.
\<close>

definition keymap_of ::
  "(EditorView \<Rightarrow> bool \<Rightarrow> bool \<times> bool) \<Rightarrow>
   (EditorView \<Rightarrow> bool \<Rightarrow> bool \<times> action list \<times> (string + bool \<times> EditorView)) \<Rightarrow>
   string \<Rightarrow> EditorView \<Rightarrow> bool \<Rightarrow> bool \<times> action list \<times> (string + bool \<times> EditorView)" where
  "keymap_of g d eventKey view awaitingGotoKey =
     (if eventKey = ''g'' then
        (case g view awaitingGotoKey of
           (aw1, True) \<Rightarrow> (aw1, [], Inr (True, view))
         | (aw1, False) \<Rightarrow>
             (case any_run eventKey aw1 of (aw2, handled) \<Rightarrow> (aw2, [], Inr (handled, view))))
      else if eventKey = ''d'' then
        (case d view awaitingGotoKey of
           (aw1, acts, Inl e) \<Rightarrow> (aw1, acts, Inl e)
         | (aw1, acts, Inr (True, view')) \<Rightarrow> (aw1, acts, Inr (True, view'))
         | (aw1, acts, Inr (False, view')) \<Rightarrow>
             (case any_run eventKey aw1 of (aw2, handled) \<Rightarrow> (aw2, acts, Inr (handled, view'))))
      else
        (case any_run eventKey awaitingGotoKey of
           (aw1, handled) \<Rightarrow> (aw1, [], Inr (handled, view))))"

definition goToDefinitionKeymap ::
  "string \<Rightarrow> EditorView \<Rightarrow> bool \<Rightarrow> bool \<times> action list \<times> (string + bool \<times> EditorView)" where
  "goToDefinitionKeymap = keymap_of g_run d_run"

definition goToDefinitionKeymap_part000 ::
  "string \<Rightarrow> EditorView \<Rightarrow> bool \<Rightarrow> bool \<times> action list \<times> (string + bool \<times> EditorView)" where
  "goToDefinitionKeymap_part000 = keymap_of g_run_part000 d_run_part000"

text \<open>
  One key press (no modifier) in an editor built with \<^verbatim>\<open>helixKeymapExtension()\<close>. The
  bundle lists \<^verbatim>\<open>keymap.of([j])\<close>, \<^verbatim>\<open>keymap.of([k])\<close> and then \<^verbatim>\<open>goToDefinitionKeymap()\<close>
  (helix.ts has the Ctrl-[ keymap between them, which a key without Ctrl does not
  match). CodeMirror runs the handlers bound to the key in the order of the bundle and
  stops at the first one that returns true: for \<^verbatim>\<open>j\<close> and \<^verbatim>\<open>k\<close> the navigation handler
  runs first, and the \<^verbatim>\<open>any\<close> handler of the gd keymap runs only when the navigation
  handler has returned false. The parameters are the handlers of a version.
\<close>

definition bundle_keydown ::
  "(EditorView \<Rightarrow> bool \<times> action list) \<Rightarrow> (EditorView \<Rightarrow> bool \<times> action list) \<Rightarrow>
   (string \<Rightarrow> EditorView \<Rightarrow> bool \<Rightarrow> bool \<times> action list \<times> (string + bool \<times> EditorView)) \<Rightarrow>
   string \<Rightarrow> EditorView \<Rightarrow> bool \<Rightarrow> bool \<times> action list \<times> (string + bool \<times> EditorView)" where
  "bundle_keydown j k gd eventKey view awaitingGotoKey =
     (if eventKey = ''j'' then
        (case j view of
           (True, acts) \<Rightarrow> (awaitingGotoKey, acts, Inr (True, view))
         | (False, acts) \<Rightarrow>
             (case gd eventKey view awaitingGotoKey of
                (aw1, acts1, r) \<Rightarrow> (aw1, acts @ acts1, r)))
      else if eventKey = ''k'' then
        (case k view of
           (True, acts) \<Rightarrow> (awaitingGotoKey, acts, Inr (True, view))
         | (False, acts) \<Rightarrow>
             (case gd eventKey view awaitingGotoKey of
                (aw1, acts1, r) \<Rightarrow> (aw1, acts @ acts1, r)))
      else gd eventKey view awaitingGotoKey)"

definition helixKeymapExtension_keydown ::
  "string \<Rightarrow> EditorView \<Rightarrow> bool \<Rightarrow> bool \<times> action list \<times> (string + bool \<times> EditorView)" where
  "helixKeymapExtension_keydown = bundle_keydown j_run k_run goToDefinitionKeymap"

definition helixKeymapExtension_keydown_part000 ::
  "string \<Rightarrow> EditorView \<Rightarrow> bool \<Rightarrow> bool \<times> action list \<times> (string + bool \<times> EditorView)" where
  "helixKeymapExtension_keydown_part000 =
     bundle_keydown j_run_part000 k_run_part000 goToDefinitionKeymap_part000"

text \<open>
  Several editors. Each call of \<^verbatim>\<open>helixKeymapExtension()\<close> calls
  \<^verbatim>\<open>goToDefinitionKeymap()\<close> once, so the variable belongs to the extension bundle:
  \<open>gdKeymapOf\<close> names the bundle an editor was built with and \<open>awaitingGotoKey\<close> holds
  the variable of each bundle.
\<close>

record notebook =
  editorViews :: "nat \<Rightarrow> EditorView"
  gdKeymapOf :: "nat \<Rightarrow> nat"
  awaitingGotoKey :: "nat \<Rightarrow> bool"

text \<open>
  A key press in editor \<open>v\<close>, run through the bindings of the editor's bundle: the
  notebook after it, the calls made, and the handled flag (or the exception).
\<close>

definition pressKeyWith ::
  "(string \<Rightarrow> EditorView \<Rightarrow> bool \<Rightarrow> bool \<times> action list \<times> (string + bool \<times> EditorView)) \<Rightarrow>
   notebook \<Rightarrow> nat \<Rightarrow> string \<Rightarrow> notebook \<times> action list \<times> (string + bool)" where
  "pressKeyWith km nb v eventKey =
     (case km eventKey (editorViews nb v) (awaitingGotoKey nb (gdKeymapOf nb v)) of
        (aw, acts, Inl e) \<Rightarrow>
          (nb\<lparr>awaitingGotoKey := (awaitingGotoKey nb)(gdKeymapOf nb v := aw)\<rparr>, acts, Inl e)
      | (aw, acts, Inr (handled, view')) \<Rightarrow>
          (nb\<lparr>editorViews := (editorViews nb)(v := view'),
              awaitingGotoKey := (awaitingGotoKey nb)(gdKeymapOf nb v := aw)\<rparr>,
           acts, Inr handled))"

definition pressKey :: "notebook \<Rightarrow> nat \<Rightarrow> string \<Rightarrow> notebook \<times> action list \<times> (string + bool)" where
  "pressKey = pressKeyWith helixKeymapExtension_keydown"

definition pressKey_part000 ::
  "notebook \<Rightarrow> nat \<Rightarrow> string \<Rightarrow> notebook \<times> action list \<times> (string + bool)" where
  "pressKey_part000 = pressKeyWith helixKeymapExtension_keydown_part000"

section \<open>Mode sync across editors (helix.ts)\<close>

text \<open>
  \<^verbatim>\<open>class HelixModeSync { private instances = new Set<EditorView>(); isBroadcasting = false; ... }\<close>
  The set is kept as the list of its elements in insertion order, which is the order
  \<^verbatim>\<open>for (const view of this.instances)\<close> visits; views are named by numbers.
\<close>

record HelixModeSync =
  instances :: "nat list"
  isBroadcasting :: bool

text \<open>
  The shared state of the page:
  \<^item> \<open>views\<close>: the editors;
  \<^item> \<open>INSTANCES\<close>: \<^verbatim>\<open>HelixModeSync.INSTANCES\<close>;
  \<^item> \<open>idleCallbacks\<close>: the closures handed to \<^verbatim>\<open>onIdle\<close> that have not run yet, each
    with the \<^verbatim>\<open>view\<close> and \<^verbatim>\<open>next\<close> it captured;
  \<^item> \<open>warnings\<close>: the calls of \<^verbatim>\<open>Logger.warn(message, e)\<close>;
  \<^item> \<open>dispatched\<close>: the calls of \<^verbatim>\<open>view.dispatch\<close> with a mode effect that returned,
    in order (a record of the calls; no code reads it).
\<close>

record world =
  views :: "nat \<Rightarrow> EditorView"
  INSTANCES :: HelixModeSync
  idleCallbacks :: "(nat \<times> HelixModeState) list"
  warnings :: "(string \<times> string) list"
  dispatched :: "(nat \<times> HelixModeState) list"

text \<open>
  The \<^verbatim>\<open>update(update)\<close> method of the mode-sync plugin of \<open>view\<close>, with
  \<^verbatim>\<open>prev = update.startState.field(helixModeField, false)\<close> and
  \<^verbatim>\<open>next = update.state.field(helixModeField, false)\<close>:
  \<^verbatim>\<open>if (next && prev && (prev.type !== next.type || prev.minor !== next.minor)) {
    if (HelixModeSync.INSTANCES.isBroadcasting) return;
    HelixModeSync.INSTANCES.isBroadcasting = true;
    onIdle(() => {
      HelixModeSync.INSTANCES.broadcastModeChange(view, next);
      HelixModeSync.INSTANCES.isBroadcasting = false;
    });
  }\<close>
\<close>

definition plugin_update ::
  "world \<Rightarrow> nat \<Rightarrow> HelixModeState option \<Rightarrow> HelixModeState option \<Rightarrow> world" where
  "plugin_update w view prev next =
     (case next of
        None \<Rightarrow> w
      | Some n \<Rightarrow>
          (case prev of
             None \<Rightarrow> w
           | Some p \<Rightarrow>
               if type p \<noteq> type n \<or> minor p \<noteq> minor n then
                 (if isBroadcasting (INSTANCES w) then w
                  else w\<lparr>INSTANCES := (INSTANCES w)\<lparr>isBroadcasting := True\<rparr>,
                         idleCallbacks := idleCallbacks w @ [(view, n)]\<rparr>)
               else w))"

text \<open>
  \<^verbatim>\<open>view.dispatch({ effects: modeEffectType.of(mode) })\<close> in the shared state: the
  exception when the view throws; otherwise the view's state is replaced, the call is
  recorded, and the view's plugin sees the update.
\<close>

definition view_dispatch :: "world \<Rightarrow> nat \<Rightarrow> HelixModeState \<Rightarrow> string + world" where
  "view_dispatch w v mode =
     (case dispatch (views w v) [ModeEffect mode] of
        Inl e \<Rightarrow> Inl e
      | Inr view' \<Rightarrow>
          Inr (plugin_update
                 (w\<lparr>views := (views w)(v := view'),
                    dispatched := dispatched w @ [(v, mode)]\<rparr>)
                 v (modeField (views w v)) (modeField view')))"

text \<open>
  \<^verbatim>\<open>broadcastModeChange(origin, mode) {
    for (const view of this.instances) {
      if (view === origin) continue;
      try { view.dispatch({ effects: modeEffectType.of(mode) }); }
      catch (e) { Logger.warn("HelixModeSync: failed to broadcast mode change", e); }
    }
  }\<close>
  The loop runs over the instances still to visit.
\<close>

fun broadcast_loop :: "nat list \<Rightarrow> nat \<Rightarrow> HelixModeState \<Rightarrow> world \<Rightarrow> world" where
  "broadcast_loop [] origin mode w = w"
| "broadcast_loop (view # rest) origin mode w =
     (if view = origin then broadcast_loop rest origin mode w
      else
        (case view_dispatch w view mode of
           Inr w' \<Rightarrow> broadcast_loop rest origin mode w'
         | Inl e \<Rightarrow>
             broadcast_loop rest origin mode
               (w\<lparr>warnings := warnings w @
                    [(''HelixModeSync: failed to broadcast mode change'', e)]\<rparr>)))"

definition broadcastModeChange :: "world \<Rightarrow> nat \<Rightarrow> HelixModeState \<Rightarrow> world" where
  "broadcastModeChange w origin mode = broadcast_loop (instances (INSTANCES w)) origin mode w"

text \<open>The closure handed to \<^verbatim>\<open>onIdle\<close>, with the \<^verbatim>\<open>view\<close> and \<^verbatim>\<open>next\<close> it captured.\<close>

definition idle_callback :: "world \<Rightarrow> nat \<times> HelixModeState \<Rightarrow> world" where
  "idle_callback w c =
     (case c of (view, next) \<Rightarrow>
        (let w' = broadcastModeChange w view next
         in w'\<lparr>INSTANCES := (INSTANCES w')\<lparr>isBroadcasting := False\<rparr>\<rparr>))"

text \<open>The event loop reaches an idle point: the oldest waiting closure runs.\<close>

definition run_idle :: "world \<Rightarrow> world" where
  "run_idle w =
     (case idleCallbacks w of
        [] \<Rightarrow> w
      | c # cs \<Rightarrow> idle_callback (w\<lparr>idleCallbacks := cs\<rparr>) c)"

text \<open>The views a broadcast from \<open>origin\<close> visits, in the order of the loop.\<close>

definition followers :: "world \<Rightarrow> nat \<Rightarrow> nat list" where
  "followers w origin = filter (\<lambda>v. v \<noteq> origin) (instances (INSTANCES w))"

section \<open>Sample inputs\<close>

text \<open>
  An editor that accepts \<^verbatim>\<open>dispatch\<close>, given its mode field, main selection and
  document length; and the modes used as concrete inputs below.
\<close>

definition view_at :: "HelixModeState option \<Rightarrow> int \<Rightarrow> int \<Rightarrow> int \<Rightarrow> EditorView" where
  "view_at m f t l =
     \<lparr>modeField = m, selFrom = f, selTo = t, docLength = l, cellId = ''cell'',
      dispatchThrows = None\<rparr>"

definition normal_mode :: HelixModeState where
  "normal_mode = \<lparr>type = HelixMode_Normal, minor = HelixMinor_Normal\<rparr>"

definition goto_mode :: HelixModeState where
  "goto_mode = \<lparr>type = HelixMode_Normal, minor = HelixMinor_Goto\<rparr>"

definition insert_mode :: HelixModeState where
  "insert_mode = \<lparr>type = HelixMode_Insert, minor = HelixMinor_Normal\<rparr>"

definition select_mode :: HelixModeState where
  "select_mode = \<lparr>type = HelixMode_Select, minor = HelixMinor_Normal\<rparr>"

text \<open>
  Two editors, each built with its own extension bundle, both in mode (Normal, Normal)
  with the gd keymap idle.
\<close>

definition two_cells :: notebook where
  "two_cells =
     \<lparr>editorViews = (\<lambda>v. view_at (Some normal_mode) 0 1 5),
      gdKeymapOf = (\<lambda>v. v),
      awaitingGotoKey = (\<lambda>k. False)\<rparr>"

text \<open>
  Three registered editors in mode (Normal, Normal) with nothing waiting; and the same
  three during a broadcast, where the second editor throws on \<^verbatim>\<open>dispatch\<close>.
\<close>

definition three_cells :: world where
  "three_cells =
     \<lparr>views = (\<lambda>v. view_at (Some normal_mode) 0 1 5),
      INSTANCES = \<lparr>instances = [10, 20, 30], isBroadcasting = False\<rparr>,
      idleCallbacks = [], warnings = [], dispatched = []\<rparr>"

definition torn_cells :: world where
  "torn_cells =
     \<lparr>views = (\<lambda>v. if v = 20
                    then (view_at (Some normal_mode) 0 1 5)\<lparr>dispatchThrows := Some ''torn down''\<rparr>
                    else view_at (Some normal_mode) 0 1 5),
      INSTANCES = \<lparr>instances = [10, 20, 30], isBroadcasting = True\<rparr>,
      idleCallbacks = [], warnings = [], dispatched = []\<rparr>"

section \<open>Auxiliary notions for the proofs\<close>

text \<open>The view with its mode field, when present, replaced by \<open>m\<close>.\<close>

definition mode_set :: "EditorView \<Rightarrow> HelixModeState \<Rightarrow> EditorView" where
  "mode_set view m = view\<lparr>modeField := map_option (\<lambda>_. m) (modeField view)\<rparr>"

text \<open>
  The views of \<open>vs\<close> on which a broadcast from \<open>origin\<close> performs a dispatch that
  returns.
\<close>

definition visited :: "nat list \<Rightarrow> nat \<Rightarrow> world \<Rightarrow> nat \<Rightarrow> bool" where
  "visited vs origin w v \<longleftrightarrow> v \<in> set vs \<and> v \<noteq> origin \<and> dispatchThrows (views w v) = None"

section \<open>Mode predicates: properties\<close>

lemmas sample_defs = view_at_def normal_mode_def goto_mode_def insert_mode_def select_mode_def

text \<open>
  The part_000 predicate holds exactly when the mode field is absent or both the
  major and the minor mode are Normal; the helix.ts predicate reads the major mode
  only.
\<close>

lemma isInHelixNormalMode_part000_iff:
  "isInHelixNormalMode_part000 view =
     (modeField view = None \<or>
      (\<exists>m. modeField view = Some m \<and> type m = HelixMode_Normal \<and> minor m = HelixMinor_Normal))"
  by (simp add: isInHelixNormalMode_part000_def split: option.split)

lemma isInHelixNormalMode_iff:
  "isInHelixNormalMode view =
     (modeField view = None \<or> (\<exists>m. modeField view = Some m \<and> type m = HelixMode_Normal))"
  by (simp add: isInHelixNormalMode_def split: option.split)

text \<open>A freshly created mode field counts as Normal mode in both versions.\<close>

lemma helixModeField_create_normal:
  "modeField view = Some helixModeField_create \<Longrightarrow>
     isInHelixNormalMode view \<and> isInHelixNormalMode_part000 view \<and>
     \<not> isInHelixInsertMode view \<and> \<not> isInHelixInsertMode_part000 view"
  by (simp add: helixModeField_create_def isInHelixNormalMode_def
      isInHelixNormalMode_part000_def isInHelixInsertMode_def isInHelixInsertMode_part000_def)

lemma not_normal_type:
  "modeField view = Some m \<Longrightarrow> type m \<noteq> HelixMode_Normal \<Longrightarrow>
     \<not> isInHelixNormalMode view \<and> \<not> isInHelixNormalMode_part000 view"
  by (simp add: isInHelixNormalMode_def isInHelixNormalMode_part000_def)

text \<open>
  C1. \<open>isInHelixNormalMode\<close> is to return true exactly when no mode is present or the
  mode has major Normal and minor Normal, so false for major Normal with minor Goto.
  On an editor whose mode is \<^verbatim>\<open>{ type: 0, minor: 3 }\<close> the function of helix.ts
  returns true, and its \<^verbatim>\<open>j\<close> handler at the end of the buffer moves to the next cell
  in the middle of a key sequence; the function of part_000 returns false there and
  its \<^verbatim>\<open>j\<close> handler leaves the key alone.
\<close>

theorem isInHelixNormalMode_goto_minor:
  "isInHelixNormalMode (view_at (Some goto_mode) 4 5 5) = True \<and>
   isInHelixNormalMode_part000 (view_at (Some goto_mode) 4 5 5) = False \<and>
   j_run (view_at (Some goto_mode) 4 5 5) = (True, [MoveToNextCell ''cell'' False True]) \<and>
   j_run_part000 (view_at (Some goto_mode) 4 5 5) = (False, [])"
  by (simp add: isInHelixNormalMode_def isInHelixNormalMode_part000_def
      j_run_def j_run_part000_def isAtEndOfEditorHelix_def sample_defs)

text \<open>
  C8. In both versions \<open>isInHelixInsertMode\<close> returns true exactly when a mode is
  present and its major mode is Insert. With no mode present the insert check is
  false while the normal check is true.
\<close>

theorem isInHelixInsertMode_iff:
  "isInHelixInsertMode view = (\<exists>m. modeField view = Some m \<and> type m = HelixMode_Insert) \<and>
   isInHelixInsertMode_part000 view = (\<exists>m. modeField view = Some m \<and> type m = HelixMode_Insert) \<and>
   (modeField view = None \<longrightarrow>
      \<not> isInHelixInsertMode view \<and> \<not> isInHelixInsertMode_part000 view \<and>
      isInHelixNormalMode view \<and> isInHelixNormalMode_part000 view)"
  by (simp add: isInHelixInsertMode_def isInHelixInsertMode_part000_def
      isInHelixNormalMode_def isInHelixNormalMode_part000_def split: option.split)

theorem isInHelixInsertMode_iff_witness:
  "modeField (view_at None 0 1 5) = None \<and>
   \<not> isInHelixInsertMode (view_at None 0 1 5) \<and>
   \<not> isInHelixInsertMode_part000 (view_at None 0 1 5) \<and>
   isInHelixNormalMode (view_at None 0 1 5) \<and>
   isInHelixNormalMode_part000 (view_at None 0 1 5) \<and>
   isInHelixInsertMode (view_at (Some insert_mode) 0 1 5) \<and>
   isInHelixInsertMode_part000 (view_at (Some insert_mode) 0 1 5)"
  using isInHelixInsertMode_iff [of "view_at None 0 1 5"]
    isInHelixInsertMode_iff [of "view_at (Some insert_mode) 0 1 5"]
  by (simp add: sample_defs)

section \<open>Boundary predicates: properties\<close>

text \<open>
  The start-of-buffer predicate of part_000 holds exactly when the main selection
  starts at offset 0 and the mode is absent or (Normal, Normal); the predicate of
  helix.ts reads the major mode only.
\<close>

lemma isAtStartOfEditorHelix_part000_iff:
  "isAtStartOfEditorHelix_part000 view =
     (selFrom view = 0 \<and>
      (modeField view = None \<or>
       (\<exists>m. modeField view = Some m \<and> type m = HelixMode_Normal \<and> minor m = HelixMinor_Normal)))"
  by (auto simp add: isAtStartOfEditorHelix_part000_def isInHelixNormalMode_part000_iff)

lemma isAtStartOfEditorHelix_type_only:
  "isAtStartOfEditorHelix view =
     (selFrom view = 0 \<and>
      (modeField view = None \<or> (\<exists>m. modeField view = Some m \<and> type m = HelixMode_Normal)))"
  by (simp add: isAtStartOfEditorHelix_def isInHelixNormalMode_iff)

text \<open>
  Both versions agree on the two cases the start-of-buffer rule names: a selection
  \<open>(0, 1)\<close> in mode (Normal, Normal) is at the start, a selection \<open>(0, 3)\<close> in Select
  mode is not.
\<close>

lemma isAtStartOfEditorHelix_examples:
  "isAtStartOfEditorHelix (view_at (Some normal_mode) 0 1 5) \<and>
   isAtStartOfEditorHelix_part000 (view_at (Some normal_mode) 0 1 5) \<and>
   \<not> isAtStartOfEditorHelix (view_at (Some select_mode) 0 3 5) \<and>
   \<not> isAtStartOfEditorHelix_part000 (view_at (Some select_mode) 0 3 5)"
  by (simp add: isAtStartOfEditorHelix_def isAtStartOfEditorHelix_part000_def
      isInHelixNormalMode_def isInHelixNormalMode_part000_def sample_defs)

text \<open>
  C7. The start-of-buffer predicate is to return true exactly when the main selection
  starts at offset 0 and the editor is in Normal mode, which asks for major Normal
  and minor Normal. On an editor with selection \<open>(0, 1)\<close> whose mode is
  \<^verbatim>\<open>{ type: 0, minor: 3 }\<close> the predicate of helix.ts returns true; the predicate of
  part_000 returns false there.
\<close>

theorem isAtStartOfEditorHelix_goto_minor:
  "selFrom (view_at (Some goto_mode) 0 1 5) = 0 \<and>
   modeField (view_at (Some goto_mode) 0 1 5) =
     Some \<lparr>type = HelixMode_Normal, minor = HelixMinor_Goto\<rparr> \<and>
   isAtStartOfEditorHelix (view_at (Some goto_mode) 0 1 5) = True \<and>
   isAtStartOfEditorHelix_part000 (view_at (Some goto_mode) 0 1 5) = False"
  by (simp add: isAtStartOfEditorHelix_def isAtStartOfEditorHelix_part000_def
      isInHelixNormalMode_def isInHelixNormalMode_part000_def sample_defs)

text \<open>
  C5, as stated: the end-of-buffer predicate is true for every empty buffer whatever
  the mode, and for a buffer of length \<open>L > 0\<close> exactly when the selection ends at \<open>L\<close>.
  In part_000 the selection \<open>(0, 2)\<close> of a buffer of length 2 ends at the length and
  is not at the end; in helix.ts an empty buffer in Insert mode is not at the end.
\<close>

theorem isAtEndOfEditorHelix_counterexample:
  "0 < docLength (view_at (Some normal_mode) 0 2 2) \<and>
   selTo (view_at (Some normal_mode) 0 2 2) = docLength (view_at (Some normal_mode) 0 2 2) \<and>
   \<not> isAtEndOfEditorHelix_part000 (view_at (Some normal_mode) 0 2 2) \<and>
   docLength (view_at (Some insert_mode) 0 0 0) = 0 \<and>
   \<not> isAtEndOfEditorHelix (view_at (Some insert_mode) 0 0 0)"
  by (simp add: isAtEndOfEditorHelix_part000_def isAtEndOfEditorHelix_def
      isInHelixNormalMode_def sample_defs)

text \<open>
  C5, amended. part_000: an empty buffer is at the end whatever the mode, and a
  buffer of length \<open>L > 0\<close> is at the end exactly when the selection is \<open>(L - 1, L)\<close>.
  helix.ts: the predicate is true exactly when the selection's end offset is at least
  the length (equal to it, for a selection inside the buffer) and
  \<open>isInHelixNormalMode\<close> holds.
\<close>

theorem isAtEndOfEditorHelix_exact:
  "(docLength view = 0 \<longrightarrow> isAtEndOfEditorHelix_part000 view) \<and>
   (0 < docLength view \<longrightarrow>
      isAtEndOfEditorHelix_part000 view =
        (selFrom view = docLength view - 1 \<and> selTo view = docLength view)) \<and>
   isAtEndOfEditorHelix view = (docLength view \<le> selTo view \<and> isInHelixNormalMode view) \<and>
   (selTo view \<le> docLength view \<longrightarrow>
      isAtEndOfEditorHelix view = (selTo view = docLength view \<and> isInHelixNormalMode view))"
  by (auto simp add: isAtEndOfEditorHelix_part000_def isAtEndOfEditorHelix_def)

theorem isAtEndOfEditorHelix_exact_witness:
  "docLength (view_at (Some select_mode) 0 0 0) = 0 \<and>
   isAtEndOfEditorHelix_part000 (view_at (Some select_mode) 0 0 0) \<and>
   0 < docLength (view_at (Some normal_mode) 4 5 5) \<and>
   selTo (view_at (Some normal_mode) 4 5 5) \<le> docLength (view_at (Some normal_mode) 4 5 5) \<and>
   isAtEndOfEditorHelix_part000 (view_at (Some normal_mode) 4 5 5) \<and>
   isAtEndOfEditorHelix (view_at (Some normal_mode) 4 5 5)"
  using isAtEndOfEditorHelix_exact [of "view_at (Some select_mode) 0 0 0"]
    isAtEndOfEditorHelix_exact [of "view_at (Some normal_mode) 4 5 5"]
  by (simp add: sample_defs isInHelixNormalMode_def)

section \<open>Cell navigation: properties\<close>

text \<open>
  The handlers of part_000 call \<^verbatim>\<open>moveToNextCell\<close> once exactly when the boundary
  predicate holds and the mode is absent or (Normal, Normal), and otherwise make no
  call and leave the key unhandled.
\<close>

lemma cell_navigation_part000:
  "j_run_part000 view =
     (if isAtEndOfEditorHelix_part000 view \<and>
         (modeField view = None \<or>
          (\<exists>m. modeField view = Some m \<and> type m = HelixMode_Normal \<and> minor m = HelixMinor_Normal))
      then (True, [MoveToNextCell (cellId view) False True]) else (False, []))"
  "k_run_part000 view =
     (if selFrom view = 0 \<and>
         (modeField view = None \<or>
          (\<exists>m. modeField view = Some m \<and> type m = HelixMode_Normal \<and> minor m = HelixMinor_Normal))
      then (True, [MoveToNextCell (cellId view) True True]) else (False, []))"
  by (simp_all add: j_run_part000_def k_run_part000_def isAtStartOfEditorHelix_part000_iff
      isInHelixNormalMode_part000_iff)

text \<open>The handlers of helix.ts test the boundary and the major mode only.\<close>

lemma cell_navigation_type_only:
  "j_run view =
     (if docLength view \<le> selTo view \<and>
         (modeField view = None \<or> (\<exists>m. modeField view = Some m \<and> type m = HelixMode_Normal))
      then (True, [MoveToNextCell (cellId view) False True]) else (False, []))"
  "k_run view =
     (if selFrom view = 0 \<and>
         (modeField view = None \<or> (\<exists>m. modeField view = Some m \<and> type m = HelixMode_Normal))
      then (True, [MoveToNextCell (cellId view) True True]) else (False, []))"
  by (simp_all add: j_run_def k_run_def isAtEndOfEditorHelix_def isAtStartOfEditorHelix_def
      isInHelixNormalMode_iff)

text \<open>With a major mode other than Normal no handler of either version makes a call.\<close>

lemma cell_navigation_other_major:
  assumes "modeField view = Some m" and "type m \<noteq> HelixMode_Normal"
  shows "j_run view = (False, []) \<and> k_run view = (False, []) \<and>
    j_run_part000 view = (False, []) \<and> k_run_part000 view = (False, [])"
  using assms by (simp add: cell_navigation_part000 cell_navigation_type_only)

text \<open>
  C6. \<^verbatim>\<open>j\<close> at end-of-buffer and \<^verbatim>\<open>k\<close> at start-of-buffer are to call
  \<^verbatim>\<open>moveToNextCell\<close> in Normal mode only, and in every other situation the handler is
  to make no call and leave the key unhandled. On an editor at the boundary whose mode
  is \<^verbatim>\<open>{ type: 0, minor: 3 }\<close> (a key sequence is under way) the handlers of helix.ts
  make the call and report the key handled; the handlers of part_000 make no call and
  leave the key unhandled.
\<close>

theorem cell_navigation_goto_minor:
  "j_run (view_at (Some goto_mode) 4 5 5) = (True, [MoveToNextCell ''cell'' False True]) \<and>
   k_run (view_at (Some goto_mode) 0 1 5) = (True, [MoveToNextCell ''cell'' True True]) \<and>
   j_run_part000 (view_at (Some goto_mode) 4 5 5) = (False, []) \<and>
   k_run_part000 (view_at (Some goto_mode) 0 1 5) = (False, [])"
  by (simp add: cell_navigation_part000 cell_navigation_type_only sample_defs)

section \<open>Dispatch and the Ctrl-[ binding: properties\<close>

lemma dispatch_reset:
  "dispatchThrows view = None \<Longrightarrow>
   dispatch view [ModeEffect m] = Inr (view\<lparr>modeField := map_option (\<lambda>_. m) (modeField view)\<rparr>)"
  by (simp add: dispatch_def)

lemma dispatch_part000_reset:
  "dispatchThrows view = None \<Longrightarrow>
   dispatch_part000 view [ModeEffect \<lparr>type = t, minor = n\<rparr>] =
     Inr (view\<lparr>modeField := map_option (\<lambda>_. \<lparr>type = t, minor = n\<rparr>) (modeField view)\<rparr>)"
  by (simp add: dispatch_part000_def)

lemma ctrlBracket_insert:
  assumes "isInHelixInsertMode view"
  shows "fst (ctrlBracket_run view) = [Dispatch \<lparr>type = HelixMode_Normal, minor = HelixMinor_Normal\<rparr>]"
    and "dispatchThrows view = None \<Longrightarrow>
      snd (ctrlBracket_run view) =
        Inr (True, view\<lparr>modeField := Some \<lparr>type = HelixMode_Normal, minor = HelixMinor_Normal\<rparr>\<rparr>)"
proof -
  from assms obtain m where m: "modeField view = Some m"
    by (cases "modeField view") (simp_all add: isInHelixInsertMode_def)
  show "fst (ctrlBracket_run view) = [Dispatch \<lparr>type = HelixMode_Normal, minor = HelixMinor_Normal\<rparr>]"
    using assms by (simp add: ctrlBracket_run_def split: sum.split)
  show "snd (ctrlBracket_run view) =
        Inr (True, view\<lparr>modeField := Some \<lparr>type = HelixMode_Normal, minor = HelixMinor_Normal\<rparr>\<rparr>)"
    if "dispatchThrows view = None"
    using assms that m by (simp add: ctrlBracket_run_def dispatch_def)
qed

text \<open>
  C10. The Ctrl-[ binding of helix.ts is registered on Linux and Windows only. Its
  handler, when \<open>isInHelixInsertMode\<close> holds, dispatches the mode effect
  \<^verbatim>\<open>{ type: 0, minor: 2 }\<close> and, the dispatch returning, reports the key handled with
  the mode reset; when the editor is not in Insert mode it does nothing and leaves the
  key unhandled.
\<close>

theorem ctrl_bracket_exits_insert:
  "(registeredName p ctrlBracketBinding = Some ''Ctrl-['' \<longleftrightarrow> p = Linux \<or> p = Win) \<and>
   (registeredName p ctrlBracketBinding = None \<longleftrightarrow> p = Mac \<or> p = OtherPlatform) \<and>
   (isInHelixInsertMode view \<longrightarrow>
      fst (ctrlBracket_run view) =
        [Dispatch \<lparr>type = HelixMode_Normal, minor = HelixMinor_Normal\<rparr>] \<and>
      (dispatchThrows view = None \<longrightarrow>
         snd (ctrlBracket_run view) =
           Inr (True,
                view\<lparr>modeField := Some \<lparr>type = HelixMode_Normal, minor = HelixMinor_Normal\<rparr>\<rparr>))) \<and>
   (\<not> isInHelixInsertMode view \<longrightarrow> ctrlBracket_run view = ([], Inr (False, view)))"
proof -
  have r: "(registeredName p ctrlBracketBinding = Some ''Ctrl-['' \<longleftrightarrow> p = Linux \<or> p = Win) \<and>
     (registeredName p ctrlBracketBinding = None \<longleftrightarrow> p = Mac \<or> p = OtherPlatform)"
    by (cases p) (simp_all add: ctrlBracketBinding_def)
  have n: "ctrlBracket_run view = ([], Inr (False, view))" if "\<not> isInHelixInsertMode view"
    using that by (simp add: ctrlBracket_run_def)
  show ?thesis
    using r n ctrlBracket_insert [of view] by simp
qed

theorem ctrl_bracket_exits_insert_witness:
  "isInHelixInsertMode (view_at (Some insert_mode) 2 2 5) \<and>
   dispatchThrows (view_at (Some insert_mode) 2 2 5) = None \<and>
   ctrlBracket_run (view_at (Some insert_mode) 2 2 5) =
     ([Dispatch normal_mode], Inr (True, view_at (Some normal_mode) 2 2 5)) \<and>
   \<not> isInHelixInsertMode (view_at (Some normal_mode) 2 3 5) \<and>
   ctrlBracket_run (view_at (Some normal_mode) 2 3 5) =
     ([], Inr (False, view_at (Some normal_mode) 2 3 5)) \<and>
   registeredName Linux ctrlBracketBinding = Some ''Ctrl-['' \<and>
   registeredName Mac ctrlBracketBinding = None"
proof -
  have i: "isInHelixInsertMode (view_at (Some insert_mode) 2 2 5)"
    "dispatchThrows (view_at (Some insert_mode) 2 2 5) = None"
    "\<not> isInHelixInsertMode (view_at (Some normal_mode) 2 3 5)"
    by (simp_all add: isInHelixInsertMode_def sample_defs)
  have e: "ctrlBracket_run v = (fst (ctrlBracket_run v), snd (ctrlBracket_run v))" for v
    by simp
  show ?thesis
    using i ctrl_bracket_exits_insert [of Linux "view_at (Some insert_mode) 2 2 5"]
      ctrl_bracket_exits_insert [of Mac "view_at (Some normal_mode) 2 3 5"]
      e [of "view_at (Some insert_mode) 2 2 5"]
    by (simp add: sample_defs)
qed

section \<open>The gd keymap: properties\<close>

lemma g_key:
  "goToDefinitionKeymap ''g'' view aw =
     ((if isInHelixNormalMode view then True else aw), [], Inr (False, view))"
  by (simp add: goToDefinitionKeymap_def keymap_of_def g_run_def any_run_def)

lemma g_key_part000:
  "goToDefinitionKeymap_part000 ''g'' view aw =
     ((if isInHelixNormalMode_part000 view then True else aw), [], Inr (False, view))"
  by (simp add: goToDefinitionKeymap_part000_def keymap_of_def g_run_part000_def any_run_def)

lemma other_key:
  "eventKey \<noteq> ''g'' \<Longrightarrow> eventKey \<noteq> ''d'' \<Longrightarrow>
   keymap_of g d eventKey view aw = (False, [], Inr (False, view))"
  by (simp add: keymap_of_def any_run_def)

lemma d_key_idle:
  "goToDefinitionKeymap ''d'' view False = (False, [], Inr (False, view))"
  by (simp add: goToDefinitionKeymap_def keymap_of_def d_run_def any_run_def)

lemma d_key_idle_part000:
  "goToDefinitionKeymap_part000 ''d'' view False = (False, [], Inr (False, view))"
  by (simp add: goToDefinitionKeymap_part000_def keymap_of_def d_run_part000_def any_run_def)

lemma d_key_fires:
  assumes "dispatchThrows view = None"
    and "\<forall>m. modeField view = Some m \<longrightarrow> type m = HelixMode_Normal"
  shows "goToDefinitionKeymap ''d'' view True =
     (False,
      [GoToDefinitionAtCursorPosition, Dispatch \<lparr>type = HelixMode_Normal, minor = HelixMinor_Normal\<rparr>],
      Inr (True, view\<lparr>modeField :=
             map_option (\<lambda>_. \<lparr>type = HelixMode_Normal, minor = HelixMinor_Normal\<rparr>) (modeField view)\<rparr>))"
  using assms
  by (cases "modeField view")
    (simp_all add: goToDefinitionKeymap_def keymap_of_def d_run_def dispatch_reset)

lemma d_key_fires_part000:
  assumes "dispatchThrows view = None"
    and "\<forall>m. modeField view = Some m \<longrightarrow> type m = HelixMode_Normal"
  shows "goToDefinitionKeymap_part000 ''d'' view True =
     (False,
      [GoToDefinitionAtCursorPosition, Dispatch \<lparr>type = HelixMode_Normal, minor = HelixMinor_Normal\<rparr>],
      Inr (True, view\<lparr>modeField :=
             map_option (\<lambda>_. \<lparr>type = HelixMode_Normal, minor = HelixMinor_Normal\<rparr>) (modeField view)\<rparr>))"
  using assms
  by (cases "modeField view")
    (simp_all add: goToDefinitionKeymap_part000_def keymap_of_def d_run_part000_def
      dispatch_part000_reset)

text \<open>
  C3. In both versions, for one editor: \<^verbatim>\<open>g\<close> pressed in Normal mode is left unhandled
  (the engine receives it) and arms the keymap; \<^verbatim>\<open>d\<close> pressed next, while the major
  mode is Normal (whatever the minor mode the engine entered), calls
  \<^verbatim>\<open>goToDefinitionAtCursorPosition\<close> once, then dispatches the mode effect
  \<^verbatim>\<open>{ type: 0, minor: 2 }\<close>, which leaves the mode at (Normal, Normal), and reports
  the key handled.
\<close>

theorem gd_sequence_fires:
  assumes "dispatchThrows view1 = None"
    and "\<forall>m. modeField view1 = Some m \<longrightarrow> type m = HelixMode_Normal"
  shows
   "(isInHelixNormalMode view0 \<longrightarrow>
       goToDefinitionKeymap ''g'' view0 aw0 = (True, [], Inr (False, view0)) \<and>
       goToDefinitionKeymap ''d'' view1 True =
         (False,
          [GoToDefinitionAtCursorPosition,
           Dispatch \<lparr>type = HelixMode_Normal, minor = HelixMinor_Normal\<rparr>],
          Inr (True, view1\<lparr>modeField :=
                 map_option (\<lambda>_. \<lparr>type = HelixMode_Normal, minor = HelixMinor_Normal\<rparr>)
                   (modeField view1)\<rparr>))) \<and>
    (isInHelixNormalMode_part000 view0 \<longrightarrow>
       goToDefinitionKeymap_part000 ''g'' view0 aw0 = (True, [], Inr (False, view0)) \<and>
       goToDefinitionKeymap_part000 ''d'' view1 True =
         (False,
          [GoToDefinitionAtCursorPosition,
           Dispatch \<lparr>type = HelixMode_Normal, minor = HelixMinor_Normal\<rparr>],
          Inr (True, view1\<lparr>modeField :=
                 map_option (\<lambda>_. \<lparr>type = HelixMode_Normal, minor = HelixMinor_Normal\<rparr>)
                   (modeField view1)\<rparr>)))"
  using d_key_fires [OF assms] d_key_fires_part000 [OF assms]
  by (simp add: g_key g_key_part000)

theorem gd_sequence_fires_witness:
  "dispatchThrows (view_at (Some goto_mode) 3 4 9) = None \<and>
   modeField (view_at (Some goto_mode) 3 4 9) = Some goto_mode \<and>
   type goto_mode = HelixMode_Normal \<and>
   isInHelixNormalMode (view_at (Some normal_mode) 3 4 9) \<and>
   isInHelixNormalMode_part000 (view_at (Some normal_mode) 3 4 9) \<and>
   goToDefinitionKeymap ''g'' (view_at (Some normal_mode) 3 4 9) False =
     (True, [], Inr (False, view_at (Some normal_mode) 3 4 9)) \<and>
   goToDefinitionKeymap ''d'' (view_at (Some goto_mode) 3 4 9) True =
     (False, [GoToDefinitionAtCursorPosition, Dispatch normal_mode],
      Inr (True, view_at (Some normal_mode) 3 4 9)) \<and>
   goToDefinitionKeymap_part000 ''g'' (view_at (Some normal_mode) 3 4 9) False =
     (True, [], Inr (False, view_at (Some normal_mode) 3 4 9)) \<and>
   goToDefinitionKeymap_part000 ''d'' (view_at (Some goto_mode) 3 4 9) True =
     (False, [GoToDefinitionAtCursorPosition, Dispatch normal_mode],
      Inr (True, view_at (Some normal_mode) 3 4 9))"
proof -
  have a: "dispatchThrows (view_at (Some goto_mode) 3 4 9) = None"
    by (simp add: view_at_def)
  have b: "\<forall>m. modeField (view_at (Some goto_mode) 3 4 9) = Some m \<longrightarrow> type m = HelixMode_Normal"
    by (simp add: view_at_def goto_mode_def)
  have n: "isInHelixNormalMode (view_at (Some normal_mode) 3 4 9)"
    "isInHelixNormalMode_part000 (view_at (Some normal_mode) 3 4 9)"
    by (simp_all add: isInHelixNormalMode_def isInHelixNormalMode_part000_def sample_defs)
  show ?thesis
    using a b n
      gd_sequence_fires [OF a b, of "view_at (Some normal_mode) 3 4 9" False]
    by (simp add: sample_defs)
qed

text \<open>
  A key other than \<^verbatim>\<open>j\<close> and \<^verbatim>\<open>k\<close> goes straight to the gd keymap; \<^verbatim>\<open>j\<close> and \<^verbatim>\<open>k\<close> reach
  it when the navigation handler has returned false.
\<close>

lemma bundle_keydown_other:
  "eventKey \<noteq> ''j'' \<Longrightarrow> eventKey \<noteq> ''k'' \<Longrightarrow>
   bundle_keydown j k gd eventKey view aw = gd eventKey view aw"
  by (simp add: bundle_keydown_def)

lemma bundle_keydown_unconsumed:
  "j view = (False, []) \<Longrightarrow> k view = (False, []) \<Longrightarrow>
   bundle_keydown j k gd eventKey view aw = gd eventKey view aw"
  by (simp add: bundle_keydown_def split: prod.split)

text \<open>
  In part_000 a key other than \<^verbatim>\<open>g\<close> and \<^verbatim>\<open>d\<close> that arrives outside Normal mode (as
  in the Goto minor mode the engine enters after \<^verbatim>\<open>g\<close>) resets the keymap, is left
  unhandled and makes no call; the same holds in helix.ts for every key other than
  \<^verbatim>\<open>g\<close>, \<^verbatim>\<open>d\<close>, \<^verbatim>\<open>j\<close> and \<^verbatim>\<open>k\<close>. In both versions \<^verbatim>\<open>d\<close> on an idle keymap is left
  unhandled and makes no call.
\<close>

lemma gd_sequence_interrupted_part000:
  assumes "eventKey \<noteq> ''g''" and "eventKey \<noteq> ''d''"
    and "\<not> isInHelixNormalMode_part000 view"
  shows "helixKeymapExtension_keydown_part000 eventKey view aw = (False, [], Inr (False, view))"
proof -
  have "j_run_part000 view = (False, [])" "k_run_part000 view = (False, [])"
    using assms(3)
    by (simp_all add: j_run_part000_def k_run_part000_def isAtStartOfEditorHelix_part000_def)
  then show ?thesis
    using assms(1,2)
    by (simp add: helixKeymapExtension_keydown_part000_def bundle_keydown_unconsumed
        goToDefinitionKeymap_part000_def other_key)
qed

lemma gd_sequence_interrupted_other_key:
  assumes "eventKey \<noteq> ''g''" and "eventKey \<noteq> ''d''"
    and "eventKey \<noteq> ''j''" and "eventKey \<noteq> ''k''"
  shows "helixKeymapExtension_keydown eventKey view aw = (False, [], Inr (False, view))"
  using assms
  by (simp add: helixKeymapExtension_keydown_def bundle_keydown_other
      goToDefinitionKeymap_def other_key)

lemma d_idle_bundle:
  "helixKeymapExtension_keydown ''d'' view False = (False, [], Inr (False, view))"
  "helixKeymapExtension_keydown_part000 ''d'' view False = (False, [], Inr (False, view))"
  by (simp_all add: helixKeymapExtension_keydown_def helixKeymapExtension_keydown_part000_def
      bundle_keydown_other d_key_idle d_key_idle_part000)

text \<open>
  In both versions the sequence does not complete across editors built from different
  extension bundles: \<^verbatim>\<open>g\<close> in one editor followed by \<^verbatim>\<open>d\<close> in another whose keymap is
  idle makes no call and leaves both keys unhandled.
\<close>

lemma gd_flag_per_bundle:
  assumes "gdKeymapOf nb a \<noteq> gdKeymapOf nb b"
    and "\<not> awaitingGotoKey nb (gdKeymapOf nb b)"
  shows "\<exists>nb1 nb2. pressKey nb a ''g'' = (nb1, [], Inr False) \<and>
       pressKey nb1 b ''d'' = (nb2, [], Inr False)"
    and "\<exists>nb1 nb2. pressKey_part000 nb a ''g'' = (nb1, [], Inr False) \<and>
       pressKey_part000 nb1 b ''d'' = (nb2, [], Inr False)"
  using assms
  by (simp_all add: pressKey_def pressKey_part000_def pressKeyWith_def
      helixKeymapExtension_keydown_def helixKeymapExtension_keydown_part000_def
      bundle_keydown_other g_key g_key_part000 d_key_idle d_key_idle_part000)

lemma gd_flag_per_bundle_two_cells:
  "\<exists>nb1 nb2. pressKey two_cells 0 ''g'' = (nb1, [], Inr False) \<and>
     pressKey nb1 1 ''d'' = (nb2, [], Inr False)"
proof -
  have "gdKeymapOf two_cells 0 \<noteq> gdKeymapOf two_cells 1"
    "\<not> awaitingGotoKey two_cells (gdKeymapOf two_cells 1)"
    by (simp_all add: two_cells_def)
  then show ?thesis by (rule gd_flag_per_bundle(1))
qed

text \<open>
  C4. After \<^verbatim>\<open>g\<close>, a key other than \<^verbatim>\<open>g\<close> and \<^verbatim>\<open>d\<close> is to reset the keymap, so that
  the \<^verbatim>\<open>d\<close> that follows makes no call. In helix.ts, on an editor with selection
  \<open>(0, 1)\<close>: \<^verbatim>\<open>g\<close> in mode (Normal, Normal) arms the keymap; with the engine now in
  (Normal, Goto), \<^verbatim>\<open>k\<close> is consumed by the navigation binding, which moves to the
  previous cell, so the \<^verbatim>\<open>any\<close> handler does not run and the keymap stays armed; \<^verbatim>\<open>d\<close>
  then calls \<^verbatim>\<open>goToDefinitionAtCursorPosition\<close> once. In part_000 the same \<^verbatim>\<open>k\<close> is left
  unhandled and resets the keymap, and the \<^verbatim>\<open>d\<close> that follows makes no call.
\<close>

theorem gd_sequence_survives_k:
  "helixKeymapExtension_keydown ''g'' (view_at (Some normal_mode) 0 1 5) False =
     (True, [], Inr (False, view_at (Some normal_mode) 0 1 5)) \<and>
   helixKeymapExtension_keydown ''k'' (view_at (Some goto_mode) 0 1 5) True =
     (True, [MoveToNextCell ''cell'' True True], Inr (True, view_at (Some goto_mode) 0 1 5)) \<and>
   helixKeymapExtension_keydown ''d'' (view_at (Some goto_mode) 0 1 5) True =
     (False, [GoToDefinitionAtCursorPosition, Dispatch normal_mode],
      Inr (True, view_at (Some normal_mode) 0 1 5)) \<and>
   helixKeymapExtension_keydown_part000 ''g'' (view_at (Some normal_mode) 0 1 5) False =
     (True, [], Inr (False, view_at (Some normal_mode) 0 1 5)) \<and>
   helixKeymapExtension_keydown_part000 ''k'' (view_at (Some goto_mode) 0 1 5) True =
     (False, [], Inr (False, view_at (Some goto_mode) 0 1 5)) \<and>
   helixKeymapExtension_keydown_part000 ''d'' (view_at (Some goto_mode) 0 1 5) False =
     (False, [], Inr (False, view_at (Some goto_mode) 0 1 5))"
proof -
  have g: "helixKeymapExtension_keydown ''g'' (view_at (Some normal_mode) 0 1 5) False =
       (True, [], Inr (False, view_at (Some normal_mode) 0 1 5))"
    "helixKeymapExtension_keydown_part000 ''g'' (view_at (Some normal_mode) 0 1 5) False =
       (True, [], Inr (False, view_at (Some normal_mode) 0 1 5))"
    by (simp_all add: helixKeymapExtension_keydown_def helixKeymapExtension_keydown_part000_def
        bundle_keydown_other g_key g_key_part000 isInHelixNormalMode_def
        isInHelixNormalMode_part000_def sample_defs)
  have k: "helixKeymapExtension_keydown ''k'' (view_at (Some goto_mode) 0 1 5) True =
       (True, [MoveToNextCell ''cell'' True True], Inr (True, view_at (Some goto_mode) 0 1 5))"
    by (simp add: helixKeymapExtension_keydown_def bundle_keydown_def
        cell_navigation_type_only sample_defs)
  have kp: "helixKeymapExtension_keydown_part000 ''k'' (view_at (Some goto_mode) 0 1 5) True =
       (False, [], Inr (False, view_at (Some goto_mode) 0 1 5))"
    by (rule gd_sequence_interrupted_part000)
      (simp_all add: isInHelixNormalMode_part000_def sample_defs)
  have d: "helixKeymapExtension_keydown ''d'' (view_at (Some goto_mode) 0 1 5) True =
       (False, [GoToDefinitionAtCursorPosition, Dispatch normal_mode],
        Inr (True, view_at (Some normal_mode) 0 1 5))"
    by (simp add: helixKeymapExtension_keydown_def bundle_keydown_other
        goToDefinitionKeymap_def keymap_of_def d_run_def dispatch_def sample_defs)
  show ?thesis using g k kp d d_idle_bundle(2) by simp
qed

section \<open>Mode sync: properties\<close>

lemma plugin_update_broadcasting:
  "isBroadcasting (INSTANCES w) \<Longrightarrow> plugin_update w v prev next = w"
  by (simp add: plugin_update_def split: option.split)

lemma plugin_update_same:
  "views (plugin_update w v prev next) = views w"
  "warnings (plugin_update w v prev next) = warnings w"
  "dispatched (plugin_update w v prev next) = dispatched w"
  "instances (INSTANCES (plugin_update w v prev next)) = instances (INSTANCES w)"
  by (simp_all add: plugin_update_def split: option.split)

lemma view_dispatch_throws:
  "dispatchThrows (views w v) = Some e \<Longrightarrow> view_dispatch w v mode = Inl e"
  by (simp add: view_dispatch_def dispatch_def)

lemma view_dispatch_returns:
  assumes "dispatchThrows (views w v) = None"
  shows "\<exists>w'. view_dispatch w v mode = Inr w' \<and>
     views w' = (views w)(v := mode_set (views w v) mode) \<and>
     warnings w' = warnings w \<and>
     dispatched w' = dispatched w @ [(v, mode)] \<and>
     instances (INSTANCES w') = instances (INSTANCES w) \<and>
     (isBroadcasting (INSTANCES w) \<longrightarrow>
        INSTANCES w' = INSTANCES w \<and> idleCallbacks w' = idleCallbacks w)"
  using assms
  by (simp add: view_dispatch_def dispatch_def mode_set_def plugin_update_same
      plugin_update_broadcasting)


lemma mode_set_simps:
  "dispatchThrows (mode_set view m) = dispatchThrows view"
  "mode_set (mode_set view m) m = mode_set view m"
  "modeField (mode_set view m) = map_option (\<lambda>_. m) (modeField view)"
  by (simp_all add: mode_set_def option.map_comp comp_def)

lemma broadcast_loop_effect:
  "instances (INSTANCES (broadcast_loop vs origin mode w)) = instances (INSTANCES w) \<and>
   (\<forall>v. dispatchThrows (views (broadcast_loop vs origin mode w) v) = dispatchThrows (views w v)) \<and>
   warnings (broadcast_loop vs origin mode w) =
     warnings w @
     concat (map (\<lambda>v. case dispatchThrows (views w v) of
                          None \<Rightarrow> []
                        | Some e \<Rightarrow> [(''HelixModeSync: failed to broadcast mode change'', e)])
                 (filter (\<lambda>v. v \<noteq> origin) vs)) \<and>
   dispatched (broadcast_loop vs origin mode w) =
     dispatched w @
     map (\<lambda>v. (v, mode))
       (filter (\<lambda>v. dispatchThrows (views w v) = None) (filter (\<lambda>v. v \<noteq> origin) vs)) \<and>
   (\<forall>v. views (broadcast_loop vs origin mode w) v =
      (if visited vs origin w v then mode_set (views w v) mode else views w v))"
proof (induction vs arbitrary: w)
  case Nil
  show ?case by (simp add: visited_def)
next
  case (Cons x xs)
  show ?case
  proof (cases "x = origin")
    case True
    then show ?thesis using Cons.IH [of w] by (simp add: visited_def mode_set_simps)
  next
    case False
    show ?thesis
    proof (cases "dispatchThrows (views w x)")
      case (Some e)
      let ?w1 = "w\<lparr>warnings := warnings w @
                    [(''HelixModeSync: failed to broadcast mode change'', e)]\<rparr>"
      have step: "broadcast_loop (x # xs) origin mode w = broadcast_loop xs origin mode ?w1"
        using False Some by (simp add: view_dispatch_throws)
      have vis: "visited (x # xs) origin w v = visited xs origin ?w1 v" for v
        using Some by (auto simp add: visited_def)
      show ?thesis
        unfolding step using Cons.IH [of ?w1] False Some by (simp add: vis mode_set_simps)
    next
      case None
      from view_dispatch_returns [OF None, of mode] obtain w1 where
        w1: "view_dispatch w x mode = Inr w1"
          "views w1 = (views w)(x := mode_set (views w x) mode)"
          "warnings w1 = warnings w"
          "dispatched w1 = dispatched w @ [(x, mode)]"
          "instances (INSTANCES w1) = instances (INSTANCES w)"
        by blast
      have step: "broadcast_loop (x # xs) origin mode w = broadcast_loop xs origin mode w1"
        using False w1(1) by simp
      have thr: "dispatchThrows (views w1 v) = dispatchThrows (views w v)" for v
        by (simp add: w1(2) mode_set_simps)
      have vis: "visited (x # xs) origin w v = (v = x \<or> visited xs origin w1 v)" for v
        using None False by (auto simp add: visited_def thr)
      have vw: "(if visited xs origin w1 v then mode_set (views w1 v) mode else views w1 v) =
          (if visited (x # xs) origin w v then mode_set (views w v) mode else views w v)" for v
        by (simp add: vis w1(2) mode_set_simps)
      show ?thesis
        unfolding step using Cons.IH [of w1] False None
        by (simp add: thr w1(3,4,5) vw mode_set_simps)
    qed
  qed
qed

lemma broadcast_loop_flags:
  "isBroadcasting (INSTANCES w) \<Longrightarrow>
   INSTANCES (broadcast_loop vs origin mode w) = INSTANCES w \<and>
   idleCallbacks (broadcast_loop vs origin mode w) = idleCallbacks w"
proof (induction vs arbitrary: w)
  case Nil
  show ?case by simp
next
  case (Cons x xs)
  show ?case
  proof (cases "x = origin")
    case True
    then show ?thesis using Cons.IH [OF Cons.prems] by simp
  next
    case False
    show ?thesis
    proof (cases "dispatchThrows (views w x)")
      case (Some e)
      let ?w1 = "w\<lparr>warnings := warnings w @
                    [(''HelixModeSync: failed to broadcast mode change'', e)]\<rparr>"
      have "isBroadcasting (INSTANCES ?w1)" using Cons.prems by simp
      from Cons.IH [OF this] show ?thesis
        using False Some by (simp add: view_dispatch_throws)
    next
      case None
      from view_dispatch_returns [OF None, of mode] Cons.prems obtain w1 where
        w1: "view_dispatch w x mode = Inr w1" "INSTANCES w1 = INSTANCES w"
          "idleCallbacks w1 = idleCallbacks w"
        by blast
      then have "isBroadcasting (INSTANCES w1)" using Cons.prems by simp
      from Cons.IH [OF this] show ?thesis
        using False w1 by simp
    qed
  qed
qed

text \<open>
  C9. A broadcast visits every registered editor other than the origin. Where the
  dispatch on a follower throws, the exception is logged as a warning with the
  exception attached and that follower is left as it was; every follower whose
  dispatch returns has its mode set, before or after a failing one. The broadcast
  itself always returns.
\<close>

theorem broadcast_survives_failure:
  "warnings (broadcastModeChange w origin mode) =
     warnings w @
     concat (map (\<lambda>v. case dispatchThrows (views w v) of
                          None \<Rightarrow> []
                        | Some e \<Rightarrow> [(''HelixModeSync: failed to broadcast mode change'', e)])
                 (followers w origin)) \<and>
   dispatched (broadcastModeChange w origin mode) =
     dispatched w @
     map (\<lambda>v. (v, mode)) (filter (\<lambda>v. dispatchThrows (views w v) = None) (followers w origin)) \<and>
   (\<forall>v \<in> set (followers w origin).
      (dispatchThrows (views w v) = None \<longrightarrow>
         modeField (views (broadcastModeChange w origin mode) v) =
           map_option (\<lambda>_. mode) (modeField (views w v))) \<and>
      (\<forall>e. dispatchThrows (views w v) = Some e \<longrightarrow>
         (''HelixModeSync: failed to broadcast mode change'', e)
           \<in> set (warnings (broadcastModeChange w origin mode)) \<and>
         views (broadcastModeChange w origin mode) v = views w v))"
proof -
  let ?vs = "instances (INSTANCES w)"
  note eff = broadcast_loop_effect [of ?vs origin mode w]
  have a: "warnings (broadcastModeChange w origin mode) =
     warnings w @
     concat (map (\<lambda>v. case dispatchThrows (views w v) of
                          None \<Rightarrow> []
                        | Some e \<Rightarrow> [(''HelixModeSync: failed to broadcast mode change'', e)])
                 (followers w origin))"
    using eff by (simp add: broadcastModeChange_def followers_def)
  have b: "dispatched (broadcastModeChange w origin mode) =
     dispatched w @
     map (\<lambda>v. (v, mode)) (filter (\<lambda>v. dispatchThrows (views w v) = None) (followers w origin))"
    using eff by (simp add: broadcastModeChange_def followers_def)
  have c: "views (broadcastModeChange w origin mode) v =
      (if visited ?vs origin w v then mode_set (views w v) mode else views w v)" for v
    using eff by (simp add: broadcastModeChange_def)
  have d: "modeField (views (broadcastModeChange w origin mode) v) =
           map_option (\<lambda>_. mode) (modeField (views w v))"
    if "v \<in> set (followers w origin)" "dispatchThrows (views w v) = None" for v
    using that by (simp add: c visited_def followers_def mode_set_simps)
  have e: "(''HelixModeSync: failed to broadcast mode change'', e)
           \<in> set (warnings (broadcastModeChange w origin mode)) \<and>
         views (broadcastModeChange w origin mode) v = views w v"
    if "v \<in> set (followers w origin)" "dispatchThrows (views w v) = Some e" for v e
  proof -
    have "views (broadcastModeChange w origin mode) v = views w v"
      using that by (simp add: c visited_def)
    moreover have "(''HelixModeSync: failed to broadcast mode change'', e)
           \<in> set (warnings (broadcastModeChange w origin mode))"
      unfolding a using that by (force simp add: split: option.split)
    ultimately show ?thesis by simp
  qed
  show ?thesis using a b d e by blast
qed

theorem broadcast_survives_failure_witness:
  "followers torn_cells 10 = [20, 30] \<and>
   dispatchThrows (views torn_cells 20) = Some ''torn down'' \<and>
   dispatchThrows (views torn_cells 30) = None \<and>
   warnings (broadcastModeChange torn_cells 10 insert_mode) =
     [(''HelixModeSync: failed to broadcast mode change'', ''torn down'')] \<and>
   dispatched (broadcastModeChange torn_cells 10 insert_mode) = [(30, insert_mode)] \<and>
   modeField (views (broadcastModeChange torn_cells 10 insert_mode) 30) = Some insert_mode \<and>
   views (broadcastModeChange torn_cells 10 insert_mode) 20 = views torn_cells 20"
proof -
  have f: "followers torn_cells 10 = [20, 30]"
    by (simp add: followers_def torn_cells_def)
  have t: "dispatchThrows (views torn_cells 20) = Some ''torn down''"
    "dispatchThrows (views torn_cells 30) = None"
    "modeField (views torn_cells 30) = Some normal_mode"
    "warnings torn_cells = []" "dispatched torn_cells = []"
    by (simp_all add: torn_cells_def view_at_def)
  show ?thesis
    using broadcast_survives_failure [of torn_cells 10 insert_mode]
    by (simp add: f t)
qed

lemma local_change:
  assumes "dispatchThrows (views w origin) = None"
    and "modeField (views w origin) = Some prev"
    and "type prev \<noteq> type m \<or> minor prev \<noteq> minor m"
    and "\<not> isBroadcasting (INSTANCES w)"
  shows "view_dispatch w origin m =
     Inr (w\<lparr>views := (views w)(origin := mode_set (views w origin) m),
            dispatched := dispatched w @ [(origin, m)],
            INSTANCES := (INSTANCES w)\<lparr>isBroadcasting := True\<rparr>,
            idleCallbacks := idleCallbacks w @ [(origin, m)]\<rparr>)"
  using assms
  by (auto simp add: view_dispatch_def dispatch_def plugin_update_def mode_set_def)

text \<open>
  C2. Registered editors that carry the mode field and accept dispatches, no
  broadcast pending: a mode change on one of them (major or minor differs from the
  previous value) schedules exactly one broadcast; after it has run, every registered
  editor holds the new mode, the broadcast has dispatched to every other registered
  editor in turn and never to the origin, nothing further is scheduled and the
  broadcasting flag is clear again. While the flag is set, the plugin's update
  schedules nothing.
\<close>

theorem mode_change_reaches_every_instance:
  assumes origin: "origin \<in> set (instances (INSTANCES w))"
    and idle: "\<not> isBroadcasting (INSTANCES w)" "idleCallbacks w = []"
    and healthy: "\<forall>v \<in> set (instances (INSTANCES w)).
        dispatchThrows (views w v) = None \<and> modeField (views w v) \<noteq> None"
    and prev: "modeField (views w origin) = Some prev"
    and change: "type prev \<noteq> type m \<or> minor prev \<noteq> minor m"
  shows "\<exists>w1. view_dispatch w origin m = Inr w1 \<and>
      isBroadcasting (INSTANCES w1) \<and> idleCallbacks w1 = [(origin, m)] \<and>
      (\<forall>v \<in> set (instances (INSTANCES w)). modeField (views (run_idle w1) v) = Some m) \<and>
      dispatched (run_idle w1) = dispatched w1 @ map (\<lambda>v. (v, m)) (followers w origin) \<and>
      origin \<notin> set (followers w origin) \<and>
      idleCallbacks (run_idle w1) = [] \<and>
      \<not> isBroadcasting (INSTANCES (run_idle w1)) \<and>
      warnings (run_idle w1) = warnings w \<and>
      instances (INSTANCES (run_idle w1)) = instances (INSTANCES w) \<and>
      (\<forall>u v p n. isBroadcasting (INSTANCES u) \<longrightarrow> plugin_update u v p n = u)"
proof -
  let ?vs = "instances (INSTANCES w)"
  define w1 where "w1 = w\<lparr>views := (views w)(origin := mode_set (views w origin) m),
            dispatched := dispatched w @ [(origin, m)],
            INSTANCES := (INSTANCES w)\<lparr>isBroadcasting := True\<rparr>,
            idleCallbacks := idleCallbacks w @ [(origin, m)]\<rparr>"
  define w1' where "w1' = w1\<lparr>idleCallbacks := []\<rparr>"
  define w2 where "w2 = broadcast_loop ?vs origin m w1'"
  have thr0: "dispatchThrows (views w origin) = None"
    using origin healthy by blast
  have d1: "view_dispatch w origin m = Inr w1"
    unfolding w1_def using local_change [OF thr0 prev change idle(1)] .
  have q1: "isBroadcasting (INSTANCES w1)" "idleCallbacks w1 = [(origin, m)]"
    by (simp_all add: w1_def idle(2))
  have i1: "instances (INSTANCES w1') = ?vs" "isBroadcasting (INSTANCES w1')"
    "warnings w1' = warnings w" "dispatched w1' = dispatched w1" "idleCallbacks w1' = []"
    by (simp_all add: w1'_def w1_def)
  have v1: "views w1' v = (if v = origin then mode_set (views w origin) m else views w v)" for v
    by (simp add: w1'_def w1_def)
  have thr: "dispatchThrows (views w1' v) = dispatchThrows (views w v)" for v
    by (simp add: v1 mode_set_simps)
  have run: "run_idle w1 =
      w2\<lparr>INSTANCES := (INSTANCES w2)\<lparr>isBroadcasting := False\<rparr>\<rparr>"
    by (simp add: run_idle_def idle(2) idle_callback_def broadcastModeChange_def
        w2_def w1'_def w1_def Let_def)
  note eff = broadcast_loop_effect [of ?vs origin m w1']
  note flg = broadcast_loop_flags [OF i1(2), of ?vs origin m]
  have none: "dispatchThrows (views w v) = None" if "v \<in> set ?vs" for v
    using that healthy by blast
  have warn: "warnings w2 = warnings w"
  proof -
    have "concat (map (\<lambda>v. case dispatchThrows (views w1' v) of
                          None \<Rightarrow> []
                        | Some e \<Rightarrow> [(''HelixModeSync: failed to broadcast mode change'', e)])
                 (filter (\<lambda>v. v \<noteq> origin) ?vs)) = []"
      by (simp add: thr none)
    then show ?thesis using eff by (simp add: w2_def i1(3))
  qed
  have disp: "dispatched w2 = dispatched w1 @ map (\<lambda>v. (v, m)) (followers w origin)"
  proof -
    have "filter (\<lambda>v. dispatchThrows (views w1' v) = None) (filter (\<lambda>v. v \<noteq> origin) ?vs) =
        filter (\<lambda>v. v \<noteq> origin) ?vs"
      by (simp add: thr none cong: filter_cong)
    then show ?thesis using eff by (simp add: w2_def i1(4) followers_def)
  qed
  have vw: "views w2 u =
      (if visited ?vs origin w1' u then mode_set (views w1' u) m else views w1' u)" for u
    using eff by (simp add: w2_def)
  have modes: "modeField (views w2 v) = Some m" if "v \<in> set ?vs" for v
  proof -
    from that healthy obtain old where old: "modeField (views w v) = Some old" by blast
    show ?thesis
    proof (cases "v = origin")
      case True
      then show ?thesis using old by (simp add: vw visited_def v1 mode_set_simps)
    next
      case False
      then show ?thesis
        using old that none by (simp add: vw visited_def thr v1 mode_set_simps)
    qed
  qed
  have inst: "instances (INSTANCES w2) = ?vs" "idleCallbacks w2 = []"
    using flg i1 by (simp_all add: w2_def)
  have "isBroadcasting (INSTANCES w1) \<and> idleCallbacks w1 = [(origin, m)] \<and>
      (\<forall>v \<in> set ?vs. modeField (views (run_idle w1) v) = Some m) \<and>
      dispatched (run_idle w1) = dispatched w1 @ map (\<lambda>v. (v, m)) (followers w origin) \<and>
      origin \<notin> set (followers w origin) \<and>
      idleCallbacks (run_idle w1) = [] \<and>
      \<not> isBroadcasting (INSTANCES (run_idle w1)) \<and>
      warnings (run_idle w1) = warnings w \<and>
      instances (INSTANCES (run_idle w1)) = ?vs"
    using q1 modes disp warn inst by (simp add: run followers_def)
  moreover have "\<forall>u v p n. isBroadcasting (INSTANCES u) \<longrightarrow> plugin_update u v p n = u"
    by (simp add: plugin_update_broadcasting)
  ultimately show ?thesis using d1 by blast
qed

theorem mode_change_reaches_every_instance_witness:
  "instances (INSTANCES three_cells) = [10, 20, 30] \<and>
   \<not> isBroadcasting (INSTANCES three_cells) \<and> idleCallbacks three_cells = [] \<and>
   dispatchThrows (views three_cells 10) = None \<and>
   dispatchThrows (views three_cells 20) = None \<and>
   dispatchThrows (views three_cells 30) = None \<and>
   modeField (views three_cells 10) = Some normal_mode \<and>
   modeField (views three_cells 20) = Some normal_mode \<and>
   modeField (views three_cells 30) = Some normal_mode \<and>
   type normal_mode \<noteq> type insert_mode \<and>
   (\<exists>w1. view_dispatch three_cells 10 insert_mode = Inr w1 \<and>
      idleCallbacks w1 = [(10, insert_mode)] \<and>
      modeField (views (run_idle w1) 10) = Some insert_mode \<and>
      modeField (views (run_idle w1) 20) = Some insert_mode \<and>
      modeField (views (run_idle w1) 30) = Some insert_mode \<and>
      dispatched (run_idle w1) = dispatched w1 @ [(20, insert_mode), (30, insert_mode)] \<and>
      idleCallbacks (run_idle w1) = [] \<and>
      \<not> isBroadcasting (INSTANCES (run_idle w1)))"
proof -
  have h1: "10 \<in> set (instances (INSTANCES three_cells))"
    and h2: "\<not> isBroadcasting (INSTANCES three_cells)"
    and h3: "idleCallbacks three_cells = []"
    and h4: "\<forall>v \<in> set (instances (INSTANCES three_cells)).
      dispatchThrows (views three_cells v) = None \<and> modeField (views three_cells v) \<noteq> None"
    and h5: "modeField (views three_cells 10) = Some normal_mode"
    and h6: "type normal_mode \<noteq> type insert_mode \<or> minor normal_mode \<noteq> minor insert_mode"
    and f: "followers three_cells 10 = [20, 30]"
    and i: "instances (INSTANCES three_cells) = [10, 20, 30]"
    and t: "type normal_mode \<noteq> type insert_mode"
    and v: "dispatchThrows (views three_cells 10) = None"
      "dispatchThrows (views three_cells 20) = None"
      "dispatchThrows (views three_cells 30) = None"
      "modeField (views three_cells 20) = Some normal_mode"
      "modeField (views three_cells 30) = Some normal_mode"
    by (simp_all add: three_cells_def sample_defs followers_def)
  from mode_change_reaches_every_instance [OF h1 h2 h3 h4 h5 h6]
  obtain w1 where w1: "view_dispatch three_cells 10 insert_mode = Inr w1"
      "idleCallbacks w1 = [(10, insert_mode)]"
      "\<forall>v \<in> set (instances (INSTANCES three_cells)).
         modeField (views (run_idle w1) v) = Some insert_mode"
      "dispatched (run_idle w1) =
         dispatched w1 @ map (\<lambda>v. (v, insert_mode)) (followers three_cells 10)"
      "idleCallbacks (run_idle w1) = []"
      "\<not> isBroadcasting (INSTANCES (run_idle w1))"
    by blast
  show ?thesis
    using h2 h3 h5 t v w1 by (simp add: f i)
qed

end
